theory Spec2Isabelle
  imports Main "HOL-Library.Word" "HOL-Library.Multiset" "HOL-Library.Char_ord"
    "HOL-Library.List_Lexorder"
begin

section \<open>Intensity per atlas region: the data model\<close>

text \<open>
  The development follows \<^verbatim>\<open>nuggt/calculate_intensity_in_regions.py\<close>, with the arrays
  as numpy 2 computes them. A numpy array is its shape together with its elements in C
  order, as \<^verbatim>\<open>flatten()\<close> returns them. The number types are those of the source:
  \<^verbatim>\<open>np.uint16\<close> labels are \<^typ>\<open>16 word\<close>, \<^verbatim>\<open>np.int64\<close> elements are
  \<^typ>\<open>64 word\<close> read as signed, and a \<^verbatim>\<open>np.float64\<close> element that holds a whole
  number is that number, every operation on it rounded to 53 significant bits.
\<close>

datatype error = IOError | ValueError | TypeError | IndexError

record 'a array3 =
  dim0 :: nat
  dim1 :: nat
  dim2 :: nat
  elems3 :: "'a list"

record plane =
  rows :: nat
  cols :: nat
  pixels :: "int list"

type_synonym label = "16 word"
type_synonym coord = "int \<times> int \<times> int"

text \<open>
  A one-dimensional array with its element type. The totals are created by
  \<^verbatim>\<open>np.zeros(n, np.int64)\<close> and only ever added to in place, so they are lists of
  \<^typ>\<open>64 word\<close>; what \<open>do_plane\<close> returns carries its type with it.
\<close>

datatype ndarray = Int64 "64 word list" | Float64 "int list"

type_synonym plane_result = "ndarray \<times> ndarray"
type_synonym totals = "64 word list \<times> 64 word list"

text \<open>
  The alignment model is outside the repository's file. \<^verbatim>\<open>warper.approximate(zs, ys, xs)\<close>
  is called with samples that depend on \<open>z\<close> and on the plane's shape only, and the
  evaluator it returns is applied to every pixel coordinate and then rounded and cast to
  \<^verbatim>\<open>np.int32\<close>. A warper is therefore a parameter: from \<open>z\<close> and the shape to the map
  from a pixel coordinate \<open>(z, y, x)\<close> to its rounded warped coordinate.
\<close>

type_synonym warper = "int \<Rightarrow> nat \<Rightarrow> nat \<Rightarrow> coord \<Rightarrow> coord"

definition wf_array3 :: "'a array3 \<Rightarrow> bool" where
  "wf_array3 a \<longleftrightarrow> length (elems3 a) = dim0 a * dim1 a * dim2 a"


section \<open>Numbers\<close>

text \<open>The number of binary digits of a positive number.\<close>

function width :: "int \<Rightarrow> nat" where
  "width n = (if n \<le> 0 then 0 else Suc (width (n div 2)))"
  by pat_completeness auto
termination
  by (relation "measure nat") auto

declare width.simps [simp del]

text \<open>
  The \<^verbatim>\<open>np.float64\<close> nearest to a whole number, ties to the even significand: the
  number keeps its 53 leading binary digits. The largest finite \<^verbatim>\<open>np.float64\<close> is above
  2 to the power 1023, a magnitude that sums of \<^verbatim>\<open>np.int64\<close> values reach only after more
  additions than an array has elements, so overflow to infinity is left out.
\<close>

definition round53 :: "int \<Rightarrow> int" where
  "round53 v =
     (let a = \<bar>v\<bar>;
          e = width a - 53;
          q = a div 2 ^ e;
          r = a mod 2 ^ e;
          q' = (if 2 * r > 2 ^ e \<or> (2 * r = 2 ^ e \<and> odd q) then q + 1 else q)
      in sgn v * (q' * 2 ^ e))"

text \<open>Addition of two \<^verbatim>\<open>np.float64\<close> numbers.\<close>

definition fadd :: "int \<Rightarrow> int \<Rightarrow> int" where
  "fadd a b = round53 (a + b)"

text \<open>\<^verbatim>\<open>.astype(np.int64)\<close> of integer samples: a C cast of every element.\<close>

definition astype_int64 :: "int list \<Rightarrow> 64 word list" where
  "astype_int64 xs = map word_of_int xs"

text \<open>The conversion of an \<^verbatim>\<open>np.int64\<close> to \<^verbatim>\<open>np.float64\<close>.\<close>

definition to_double :: "64 word \<Rightarrow> int" where
  "to_double w = round53 (sint w)"

section \<open>Array primitives\<close>

text \<open>\<^verbatim>\<open>np.mgrid[z:z+1, 0:h, 0:w]\<close>, each axis flattened, read as one list of coordinates.\<close>

definition mgrid :: "int \<Rightarrow> nat \<Rightarrow> nat \<Rightarrow> coord list" where
  "mgrid z h w = concat (map (\<lambda>y. map (\<lambda>x. (z, int y, int x)) [0..<w]) [0..<h])"

text \<open>\<^verbatim>\<open>a[mask]\<close>: the elements of \<open>a\<close> at the positions where the mask holds.\<close>

definition select :: "bool list \<Rightarrow> 'a list \<Rightarrow> 'a list" where
  "select msk xs = map snd (filter fst (zip msk xs))"

text \<open>\<^verbatim>\<open>np.max\<close> raises on an array without elements.\<close>

definition np_max :: "'a::linorder list \<Rightarrow> 'a option" where
  "np_max xs = (case xs of [] \<Rightarrow> None | x # rest \<Rightarrow> Some (fold max rest x))"

text \<open>The validity mask of lines 67 to 69, for one rounded coordinate.\<close>

definition in_bounds :: "'a array3 \<Rightarrow> coord \<Rightarrow> bool" where
  "in_bounds segmentation c =
     (case c of (zseg, yseg, xseg) \<Rightarrow>
        xseg \<ge> 0 \<and> xseg < int (dim2 segmentation) \<and>
        yseg \<ge> 0 \<and> yseg < int (dim1 segmentation) \<and>
        zseg \<ge> 0 \<and> zseg < int (dim0 segmentation))"

text \<open>\<^verbatim>\<open>m[z, y, x]\<close> for a coordinate inside the volume.\<close>

definition lookup3 :: "'a array3 \<Rightarrow> coord \<Rightarrow> 'a" where
  "lookup3 m c =
     (case c of (z, y, x) \<Rightarrow>
        elems3 m ! ((nat z * dim1 m + nat y) * dim2 m + nat x))"

text \<open>
  \<^verbatim>\<open>np.bincount(x, weights, minlength)\<close>. The output has \<open>max(minlength, max(x) + 1)\<close>
  bins. Without weights it is an \<^verbatim>\<open>np.int64\<close> array and every element of \<open>x\<close> adds one
  to its bin. With weights, the weights are converted to \<^verbatim>\<open>np.float64\<close>, the output is
  an \<^verbatim>\<open>np.float64\<close> array, and every element of \<open>x\<close> adds its weight to its bin, in the
  order of \<open>x\<close>; for an \<open>x\<close> without elements the output is the \<^verbatim>\<open>np.int64\<close> array of
  \<open>minlength\<close> zeros, with or without weights.
\<close>

definition bins :: "nat list \<Rightarrow> nat" where
  "bins x = (case np_max x of None \<Rightarrow> 0 | Some m \<Rightarrow> m + 1)"

definition bin_add :: "nat \<times> 'a::plus \<Rightarrow> 'a list \<Rightarrow> 'a list" where
  "bin_add iw out = (case iw of (i, w) \<Rightarrow> out[i := out ! i + w])"

definition fbin_add :: "nat \<times> int \<Rightarrow> int list \<Rightarrow> int list" where
  "fbin_add iw out = (case iw of (i, w) \<Rightarrow> out[i := fadd (out ! i) w])"

definition bincount :: "nat list \<Rightarrow> nat \<Rightarrow> ndarray" where
  "bincount x minlength =
     Int64 (fold (\<lambda>i. bin_add (i, 1)) x (replicate (max minlength (bins x)) 0))"

definition bincount_weights :: "nat list \<Rightarrow> 64 word list \<Rightarrow> nat \<Rightarrow> ndarray" where
  "bincount_weights x weights minlength =
     (if x = [] then Int64 (replicate minlength 0)
      else Float64 (fold fbin_add (zip x (map to_double weights))
                      (replicate (max minlength (bins x)) 0)))"

section \<open>The plane processor\<close>

text \<open>
  Lines 48 to 76. The file is given as its decoded plane, with whole numbers for samples.
  Indexing \<open>plane.flatten()\<close> with the mask takes the pixels in the order of the grid,
  which is the order of \<open>pixels\<close> for a plane that is well formed. \<^verbatim>\<open>np.max(m)\<close> is an
  \<^verbatim>\<open>np.uint16\<close> and so is \<^verbatim>\<open>np.max(m) + 1\<close>: for the label 65535 it is 0.
\<close>

definition do_plane ::
  "plane \<Rightarrow> int \<Rightarrow> label array3 \<Rightarrow> warper \<Rightarrow> error + plane_result" where
  "do_plane plane z segmentation warper =
     (let grid = mgrid z (rows plane) (cols plane);
          awarper = warper z (rows plane) (cols plane);
          seg_coords = map awarper grid;
          msk = map (in_bounds segmentation) seg_coords
      in case np_max (elems3 segmentation) of
           None \<Rightarrow> Inl ValueError
         | Some mx \<Rightarrow>
             (let send = unat (mx + 1);
                  seg = map (\<lambda>c. unat (lookup3 segmentation c)) (select msk seg_coords);
                  counts = bincount seg send;
                  sums = bincount_weights seg (astype_int64 (select msk (pixels plane))) send
              in Inr (counts, sums)))"

section \<open>The aggregation driver\<close>

text \<open>\<^verbatim>\<open>tifffile.imread(...).astype(np.uint16)\<close>: a C cast of every element.\<close>

definition astype_uint16 :: "int array3 \<Rightarrow> label array3" where
  "astype_uint16 a =
     \<lparr>dim0 = dim0 a, dim1 = dim1 a, dim2 = dim2 a, elems3 = map word_of_int (elems3 a)\<rparr>"

text \<open>
  \<^verbatim>\<open>a += b\<close> for an \<^verbatim>\<open>np.int64\<close> array \<open>a\<close> of one dimension. The types are resolved
  first: the sum with an \<^verbatim>\<open>np.float64\<close> operand is \<^verbatim>\<open>np.float64\<close>, which the default
  casting rule does not store into \<^verbatim>\<open>np.int64\<close>, and numpy raises \<^verbatim>\<open>UFuncTypeError\<close>, a
  \<^verbatim>\<open>TypeError\<close>. An \<^verbatim>\<open>np.int64\<close> operand has the length of \<open>a\<close> or is broadcast from
  length one; any other shape raises \<^verbatim>\<open>ValueError\<close>. The sums wrap around.
\<close>

definition iadd :: "64 word list \<Rightarrow> ndarray \<Rightarrow> error + 64 word list" where
  "iadd a b =
     (case b of
        Float64 ys \<Rightarrow> Inl TypeError
      | Int64 ys \<Rightarrow>
          (if length ys = length a then Inr (map2 (+) a ys)
           else if length ys = 1 then Inr (map (\<lambda>v. v + hd ys) a)
           else Inl ValueError))"

text \<open>\<^verbatim>\<open>total_counts += c; total_sums += s\<close>.\<close>

definition add_plane :: "totals \<Rightarrow> plane_result \<Rightarrow> error + totals" where
  "add_plane tot cs =
     (case tot of (total_counts, total_sums) \<Rightarrow>
      case cs of (c, s) \<Rightarrow>
        (case iadd total_counts c of
           Inl e \<Rightarrow> Inl e
         | Inr tc \<Rightarrow>
             (case iadd total_sums s of
                Inl e \<Rightarrow> Inl e
              | Inr ts \<Rightarrow> Inr (tc, ts))))"

text \<open>
  What the driver does with planes is observable as a trace: a plane processed by a
  direct call of \<open>do_plane\<close>, or a task submitted to the pool.
\<close>

datatype event = Called nat | Submitted nat

text \<open>Lines 95 to 98: the loop of the single-worker branch.\<close>

fun sequential ::
  "label array3 \<Rightarrow> warper \<Rightarrow> (nat \<times> plane) list \<Rightarrow> totals \<Rightarrow> event list \<times> (error + totals)"
where
  "sequential segmentation warper [] tot = ([], Inr tot)"
| "sequential segmentation warper ((z, filename) # rest) tot =
     (case do_plane filename (int z) segmentation warper of
        Inl e \<Rightarrow> ([Called z], Inl e)
      | Inr cs \<Rightarrow>
          (case add_plane tot cs of
             Inl e \<Rightarrow> ([Called z], Inl e)
           | Inr tot' \<Rightarrow>
               (case sequential segmentation warper rest tot' of
                  (tr, r) \<Rightarrow> (Called z # tr, r))))"

text \<open>
  Lines 108 to 111: the futures are read in the order of submission; \<^verbatim>\<open>future.get()\<close>
  raises what the task raised.
\<close>

fun collect :: "(error + plane_result) list \<Rightarrow> totals \<Rightarrow> error + totals" where
  "collect [] tot = Inr tot"
| "collect (future # rest) tot =
     (case future of
        Inl e \<Rightarrow> Inl e
      | Inr cs \<Rightarrow>
          (case add_plane tot cs of
             Inl e \<Rightarrow> Inl e
           | Inr tot' \<Rightarrow> collect rest tot'))"

text \<open>
  Lines 100 to 111. \<^verbatim>\<open>multiprocessing.Pool(processes)\<close> raises \<^verbatim>\<open>ValueError\<close> in its
  constructor when \<open>processes < 1\<close>, before the body of the \<^verbatim>\<open>with\<close> statement runs.
\<close>

definition pooled ::
  "int \<Rightarrow> label array3 \<Rightarrow> warper \<Rightarrow> (nat \<times> plane) list \<Rightarrow> totals \<Rightarrow> event list \<times> (error + totals)"
where
  "pooled processes segmentation warper efiles tot =
     (if processes < 1 then ([], Inl ValueError)
      else (map (\<lambda>(z, filename). Submitted z) efiles,
            collect (map (\<lambda>(z, filename). do_plane filename (int z) segmentation warper) efiles)
              tot))"

text \<open>
  Lines 89 to 111. The files of the glob are given as their decoded planes. The length of
  the totals is the \<^verbatim>\<open>np.uint16\<close> number \<^verbatim>\<open>np.max(segmentation) + 1\<close>.
\<close>

definition aggregate ::
  "int \<Rightarrow> label array3 \<Rightarrow> warper \<Rightarrow> plane list \<Rightarrow> event list \<times> (error + totals)" where
  "aggregate n_cores segmentation warper files =
     (if length files = 0 then ([], Inl IOError)
      else case np_max (elems3 segmentation) of
        None \<Rightarrow> ([], Inl ValueError)
      | Some mx \<Rightarrow>
          (let total_counts = replicate (unat (mx + 1)) 0;
               total_sums = replicate (unat (mx + 1)) 0
           in if n_cores = 1
              then sequential segmentation warper (enumerate 0 files) (total_counts, total_sums)
              else pooled n_cores segmentation warper (enumerate 0 files)
                     (total_counts, total_sums)))"

section \<open>The rollup and the report\<close>

text \<open>
  \<^verbatim>\<open>BrainRegions\<close> is imported from a module outside this file: the parsed table is a
  parameter, with the dictionary \<^verbatim>\<open>name_per_id\<close> and the method \<^verbatim>\<open>get_level_name\<close>.
\<close>

record hierarchy =
  name_per_id :: "nat \<rightharpoonup> string"
  get_level_name :: "nat \<Rightarrow> int \<Rightarrow> string"

record args =
  level :: int
  n_cores :: int

text \<open>The rows of the report before they are printed: lines 125 to 134, and the dictionary
  \<open>d\<close> of lines 136 to 144.\<close>

datatype table =
  Finest "(nat \<times> string \<times> int \<times> int) list"
| Coarser "(string \<times> int \<times> int) list"

text \<open>\<^verbatim>\<open>"%d" % n\<close>.\<close>

function str_nat :: "nat \<Rightarrow> string" where
  "str_nat n =
     (if n < 10 then [''0123456789'' ! n]
      else str_nat (n div 10) @ [''0123456789'' ! (n mod 10)])"
  by pat_completeness auto
termination
  by (relation "measure id") auto

definition fmt_d :: "int \<Rightarrow> string" where
  "fmt_d i = (if i < 0 then ''-'' @ str_nat (nat (- i)) else str_nat (nat i))"

text \<open>Lines 128 to 131.\<close>

definition region_of :: "hierarchy \<Rightarrow> nat \<Rightarrow> string" where
  "region_of br seg_id =
     (if seg_id = 0 then ''not in any region''
      else case name_per_id br seg_id of
             Some name \<Rightarrow> name
           | None \<Rightarrow> ''id'' @ fmt_d (int seg_id))"

definition finest_rows ::
  "hierarchy \<Rightarrow> (nat \<times> int \<times> int) list \<Rightarrow> (nat \<times> string \<times> int \<times> int) list" where
  "finest_rows br per_id =
     map (\<lambda>(seg_id, cnt, total_intensity).
            (seg_id, region_of br seg_id, cnt, total_intensity)) per_id"

text \<open>
  Lines 136 to 144. The dictionary is the list of its items in insertion order. A new name
  is stored with a tuple, \<^verbatim>\<open>d[level] = (count, intensity)\<close>; for a name that is in \<open>d\<close>
  already, \<^verbatim>\<open>d[level][0] += count\<close> assigns to an item of that tuple, which raises
  \<^verbatim>\<open>TypeError\<close>.
\<close>

fun rollup ::
  "hierarchy \<Rightarrow> int \<Rightarrow> (nat \<times> int \<times> int) list \<Rightarrow> (string \<times> int \<times> int) list \<Rightarrow>
   error + (string \<times> int \<times> int) list" where
  "rollup br lvl [] d = Inr d"
| "rollup br lvl ((seg_id, cnt, intensity) # rest) d =
     (let level_name = get_level_name br seg_id lvl
      in if level_name \<in> set (map fst d) then Inl TypeError
         else rollup br lvl rest (d @ [(level_name, cnt, intensity)]))"

text \<open>
  Lines 116 to 144, on the values of the two total arrays: the surviving ids with their
  counts and sums, and the rows of the requested level. \<^verbatim>\<open>total_sums[seg_ids]\<close> raises for an index beyond the array.
  \<^verbatim>\<open>sorted(d)\<close> orders the names; the names of a dictionary are distinct, so the rows
  are the items of \<open>d\<close> ordered by name.
\<close>

definition report_table :: "hierarchy \<Rightarrow> int \<Rightarrow> int list \<times> int list \<Rightarrow> error + table" where
  "report_table br lvl tot =
     (case tot of (total_counts, total_sums) \<Rightarrow>
        (let seg_ids = filter (\<lambda>i. total_counts ! i > 0) [0..<length total_counts];
             counts_per_id = map (\<lambda>i. total_counts ! i) seg_ids
         in if list_ex (\<lambda>i. i \<ge> length total_sums) seg_ids then Inl IndexError
            else
              (let total_intensities_per_id = map (\<lambda>i. total_sums ! i) seg_ids;
                   per_id = zip seg_ids (zip counts_per_id total_intensities_per_id)
               in if lvl = 7 then Inr (Finest (finest_rows br per_id))
                  else case rollup br lvl per_id [] of
                         Inl e \<Rightarrow> Inl e
                       | Inr d \<Rightarrow> Inr (Coarser (sort_key fst d)))))"

text \<open>
  The text written to the output file, one element per \<^verbatim>\<open>fd.write\<close>. The mean is a
  floating-point quotient printed with \<^verbatim>\<open>%.2f\<close>; its printer is a parameter, applied to
  the total intensity and the count.
\<close>

definition header_finest :: string where
  \<open>header_finest = ''"id","region","area","total_intensity","mean_intensity"\<newline>''\<close>

definition header_coarser :: string where
  \<open>header_coarser = ''"region","area", "total_intensity","mean_intensity"\<newline>''\<close>

definition line_finest :: "(int \<Rightarrow> int \<Rightarrow> string) \<Rightarrow> nat \<times> string \<times> int \<times> int \<Rightarrow> string" where
  \<open>line_finest fmt_mean r =
     (case r of (seg_id, region, cnt, total_intensity) \<Rightarrow>
        fmt_d (int seg_id) @ '',"'' @ region @ ''",'' @ fmt_d cnt @ '', '' @
        fmt_d total_intensity @ '', '' @ fmt_mean total_intensity cnt @ ''\<newline>'')\<close>

definition line_coarser :: "(int \<Rightarrow> int \<Rightarrow> string) \<Rightarrow> string \<times> int \<times> int \<Rightarrow> string" where
  \<open>line_coarser fmt_mean r =
     (case r of (level_name, cnt, intensity) \<Rightarrow>
        ''"'' @ level_name @ ''",'' @ fmt_d cnt @ '','' @ fmt_d intensity @ '','' @
        fmt_mean intensity cnt @ ''\<newline>'')\<close>

definition write_csv :: "(int \<Rightarrow> int \<Rightarrow> string) \<Rightarrow> table \<Rightarrow> string list" where
  "write_csv fmt_mean t =
     (case t of
        Finest rs \<Rightarrow> header_finest # map (line_finest fmt_mean) rs
      | Coarser rs \<Rightarrow> header_coarser # map (line_coarser fmt_mean) rs)"

section \<open>The program\<close>

definition main ::
  "args \<Rightarrow> warper \<Rightarrow> int array3 \<Rightarrow> plane list \<Rightarrow> hierarchy \<Rightarrow> (int \<Rightarrow> int \<Rightarrow> string) \<Rightarrow>
   event list \<times> (error + string list)" where
  "main a warper reference_segmentation files br fmt_mean =
     (let segmentation = astype_uint16 reference_segmentation
      in case aggregate (n_cores a) segmentation warper files of
           (tr, Inl e) \<Rightarrow> (tr, Inl e)
         | (tr, Inr (total_counts, total_sums)) \<Rightarrow>
             (case report_table br (level a) (map sint total_counts, map sint total_sums) of
                Inl e \<Rightarrow> (tr, Inl e)
              | Inr t \<Rightarrow> (tr, Inr (write_csv fmt_mean t))))"

section \<open>Notions used in the proofs\<close>



text \<open>
  The length of an array, the operands that \<open>iadd\<close> accepts for a total of a given
  length, the operand after broadcasting, the array that a sequence of additions leaves
  behind, and the results that can be added to a pair of totals. They describe the code
  and are not part of it.
\<close>

definition array_length :: "ndarray \<Rightarrow> nat" where
  "array_length a = (case a of Int64 ws \<Rightarrow> length ws | Float64 xs \<Rightarrow> length xs)"

definition addable :: "nat \<Rightarrow> ndarray \<Rightarrow> bool" where
  "addable n b =
     (case b of Int64 ys \<Rightarrow> length ys = n \<or> length ys = 1 | Float64 ys \<Rightarrow> False)"

definition bcast :: "nat \<Rightarrow> ndarray \<Rightarrow> 64 word list" where
  "bcast n b =
     (case b of
        Int64 ys \<Rightarrow> (if length ys = n then ys else replicate n (hd ys))
      | Float64 ys \<Rightarrow> replicate n 0)"

definition total_of :: "64 word list \<Rightarrow> ndarray list \<Rightarrow> 64 word list" where
  "total_of a bs =
     map (\<lambda>i. a ! i + sum_list (map (\<lambda>b. bcast (length a) b ! i) bs)) [0..<length a]"

definition fits :: "totals \<Rightarrow> plane_result \<Rightarrow> bool" where
  "fits tot r \<longleftrightarrow> addable (length (fst tot)) (fst r) \<and> addable (length (snd tot)) (snd r)"

section \<open>Concrete scenarios\<close>

text \<open>
  A plane of two by two pixels over a reference segmentation of one by two by two
  voxels, with a transform that leaves every coordinate where it is, and one that moves
  every pixel out of the volume.
\<close>

definition scenario_plane :: plane where
  "scenario_plane = \<lparr>rows = 2, cols = 2, pixels = [10, 20, 30, 40]\<rparr>"

definition scenario_segmentation :: "label array3" where
  "scenario_segmentation = \<lparr>dim0 = 1, dim1 = 2, dim2 = 2, elems3 = [1, 1, 2, 2]\<rparr>"

definition identity_warper :: warper where
  "identity_warper z h w c = c"

definition away_warper :: warper where
  "away_warper z h w c = (case c of (zseg, yseg, xseg) \<Rightarrow> (zseg + 5, yseg, xseg))"




text \<open>
  A reference segmentation as it is read from its file, a table of regions, and the
  arguments of two runs.
\<close>

definition scenario_reference :: "int array3" where
  "scenario_reference = \<lparr>dim0 = 1, dim1 = 2, dim2 = 3, elems3 = [1, 1, 3, 2, 2, 3]\<rparr>"

definition scenario_regions :: hierarchy where
  "scenario_regions =
     \<lparr>name_per_id = [1 \<mapsto> ''RegionOne''],
      get_level_name = (\<lambda>i lvl. if i = 1 then ''CortexB'' else if i = 2 then ''CortexA''
                                  else ''Other'')\<rparr>"

definition coarser_args :: args where
  "coarser_args = \<lparr>level = 1, n_cores = 1\<rparr>"

definition rejected_args :: args where
  "rejected_args = \<lparr>level = 7, n_cores = 0\<rparr>"


text \<open>
  A stand-in for the printer of the mean, exact where the quotient is a whole number.
\<close>

definition fmt_whole_mean :: "int \<Rightarrow> int \<Rightarrow> string" where
  "fmt_whole_mean intensity cnt = fmt_d (intensity div cnt) @ ''.00''"

text \<open>
  The header of the coarser levels in the words of the specification, for comparison with
  \<open>header_coarser\<close>, which is the one the source writes.
\<close>

definition header_coarser_spec :: string where
  \<open>header_coarser_spec = ''"region","area","total_intensity","mean_intensity"\<newline>''\<close>

section \<open>Numbers and array primitives: what they compute\<close>







lemma length_fold_bin_add: "length (fold bin_add iws out) = length out"
  by (induction iws arbitrary: out) (auto simp: bin_add_def)

lemma nth_fold_bin_add:
  fixes out :: "'a::comm_monoid_add list"
  shows "\<forall>iw\<in>set iws. fst iw < length out \<Longrightarrow> k < length out \<Longrightarrow>
   fold bin_add iws out ! k = out ! k + sum_list (map snd (filter (\<lambda>iw. fst iw = k) iws))"
proof (induction iws arbitrary: out)
  case Nil
  then show ?case by simp
next
  case (Cons iw iws)
  obtain i w where iw: "iw = (i, w)" by (cases iw)
  let ?out = "bin_add iw out"
  have len: "length ?out = length out" by (simp add: bin_add_def iw)
  have "fold bin_add iws ?out ! k =
        ?out ! k + sum_list (map snd (filter (\<lambda>iw. fst iw = k) iws))"
    using Cons.prems len by (intro Cons.IH) auto
  moreover have "?out ! k = out ! k + (if i = k then w else 0)"
    using Cons.prems iw by (simp add: bin_add_def nth_list_update)
  ultimately show ?case using iw by (simp add: add.assoc)
qed

lemma np_max_Some: "np_max xs = Some m \<Longrightarrow> m = Max (set xs) \<and> m \<in> set xs \<and> (\<forall>x\<in>set xs. x \<le> m)"
proof -
  assume a: "np_max xs = Some m"
  then obtain x rest where xs: "xs = x # rest" by (cases xs) (auto simp: np_max_def)
  with a have m: "m = Max (set xs)" using Max.set_eq_fold[of x rest] by (simp add: np_max_def)
  have "finite (set xs)" "set xs \<noteq> {}" using xs by auto
  then show ?thesis unfolding m using Max_in Max_ge by blast
qed


lemma bins_le: "\<forall>i\<in>set x. i < n \<Longrightarrow> bins x \<le> n"
  using np_max_Some[of x] by (fastforce simp: bins_def split: option.splits)




lemma index3_less:
  assumes "z < d0" "y < d1" "x < (d2::nat)"
  shows "(z * d1 + y) * d2 + x < d0 * d1 * d2"
proof -
  have "z * d1 + y < Suc z * d1" using assms by simp
  also have "\<dots> \<le> d0 * d1" using assms by (intro mult_le_mono1) simp
  finally have "Suc (z * d1 + y) \<le> d0 * d1" by simp
  then have "Suc (z * d1 + y) * d2 \<le> d0 * d1 * d2" by (rule mult_le_mono1)
  moreover have "(z * d1 + y) * d2 + x < Suc (z * d1 + y) * d2" using assms by simp
  ultimately show ?thesis by linarith
qed

lemma lookup3_in_set:
  assumes "wf_array3 m" "in_bounds m c"
  shows "lookup3 m c \<in> set (elems3 m)"
proof -
  obtain z y x where c: "c = (z, y, x)" by (cases c)
  have "nat z < dim0 m" "nat y < dim1 m" "nat x < dim2 m"
    using assms(2) c by (auto simp: in_bounds_def)
  then have "(nat z * dim1 m + nat y) * dim2 m + nat x < length (elems3 m)"
    using assms(1) index3_less by (simp add: wf_array3_def)
  then show ?thesis by (simp add: lookup3_def c)
qed





lemma bincount_nth:
  assumes "\<forall>i\<in>set x. i < n" "l < n"
  shows "\<exists>ws. bincount x n = Int64 ws \<and> length ws = n \<and>
           ws ! l = of_nat (length (filter (\<lambda>i. i = l) x))"
proof -
  have m: "max n (bins x) = n" using bins_le[OF assms(1)] by simp
  have f: "fold (\<lambda>i. bin_add (i, 1 :: 64 word)) x = fold bin_add (map (\<lambda>i. (i, 1)) x)"
    by (simp add: fold_map comp_def)
  let ?ws = "fold bin_add (map (\<lambda>i. (i, 1 :: 64 word)) x) (replicate n 0)"
  have b: "bincount x n = Int64 ?ws" by (simp add: bincount_def m f)
  have len: "length ?ws = n" by (simp add: length_fold_bin_add)
  have "\<forall>iw\<in>set (map (\<lambda>i. (i, 1 :: 64 word)) x). fst iw < length (replicate n (0 :: 64 word))"
    using assms(1) by auto
  then have "?ws ! l =
      sum_list (map snd (filter (\<lambda>iw. fst iw = l) (map (\<lambda>i. (i, 1 :: 64 word)) x)))"
    using assms(2) by (simp add: nth_fold_bin_add)
  also have "\<dots> = of_nat (length (filter (\<lambda>i. i = l) x))"
    by (induction x) auto
  finally show ?thesis using b len by blast
qed











lemma send_no_wrap:
  assumes "mx < 65535"
  shows "unat (mx + 1 :: 16 word) = unat mx + 1"
proof -
  have "unat mx < 65535" using assms by (simp add: word_less_nat_alt)
  then have "unat mx + unat (1 :: 16 word) < 2 ^ LENGTH(16)" by simp
  then have "unat (mx + 1) = unat mx + unat (1 :: 16 word)" by (simp only: unat_add_lem)
  then show ?thesis by simp
qed



section \<open>The plane processor: counts and sums per label\<close>

lemma do_plane_scenario:
  "do_plane scenario_plane 0 scenario_segmentation identity_warper =
     Inr (Int64 [0, 2, 2], Float64 [0, 30, 70])"
  by code_simp




section \<open>The reduce phase\<close>

lemma length_total_of: "length (total_of a bs) = length a"
  by (simp add: total_of_def)

lemma total_of_Cons: "total_of (total_of a [b]) bs = total_of a (b # bs)"
  by (intro nth_equalityI) (simp_all add: total_of_def add.assoc)

lemma total_of_Nil: "total_of a [] = a"
  by (intro nth_equalityI) (simp_all add: total_of_def)

lemma iadd_ok:
  assumes "addable (length a) b"
  shows "iadd a b = Inr (total_of a [b])"
proof -
  from assms obtain ys where b: "b = Int64 ys" and len: "length ys = length a \<or> length ys = 1"
    by (cases b) (auto simp: addable_def)
  show ?thesis
  proof (cases "length ys = length a")
    case True
    then have "map2 (+) a ys = total_of a [b]"
      by (intro nth_equalityI) (simp_all add: total_of_def bcast_def b)
    with True show ?thesis by (simp add: iadd_def b)
  next
    case False
    then have "map (\<lambda>v. v + hd ys) a = total_of a [b]"
      by (intro nth_equalityI) (simp_all add: total_of_def bcast_def b)
    with False len show ?thesis by (simp add: iadd_def b)
  qed
qed

lemma iadd_fail:
  assumes "\<not> addable (length a) b"
  shows "\<exists>e. iadd a b = Inl e"
  using assms by (cases b) (auto simp: addable_def iadd_def)

lemma iadd_fail_type:
  assumes "\<not> addable (length a) b" and "array_length b = length a"
  shows "iadd a b = Inl TypeError"
  using assms by (cases b) (auto simp: addable_def iadd_def array_length_def)

lemma add_plane_ok:
  assumes "fits (tc, ts) (c, s)"
  shows "add_plane (tc, ts) (c, s) = Inr (total_of tc [c], total_of ts [s])"
  using assms by (simp add: add_plane_def fits_def iadd_ok)

lemma add_plane_fail:
  assumes "\<not> fits (tc, ts) (c, s)"
  shows "\<exists>e. add_plane (tc, ts) (c, s) = Inl e"
proof (cases "addable (length tc) c")
  case True
  then have "\<not> addable (length ts) s" using assms by (simp add: fits_def)
  from iadd_fail[OF this] obtain e where "iadd ts s = Inl e" ..
  then show ?thesis using True by (simp add: add_plane_def iadd_ok)
next
  case False
  from iadd_fail[OF this] obtain e where "iadd tc c = Inl e" ..
  then show ?thesis by (simp add: add_plane_def)
qed

lemma add_plane_fail_type:
  assumes "\<not> fits (tc, ts) (c, s)"
    and "array_length c = length tc" and "array_length s = length ts"
  shows "add_plane (tc, ts) (c, s) = Inl TypeError"
proof (cases "addable (length tc) c")
  case True
  then have "\<not> addable (length ts) s" using assms(1) by (simp add: fits_def)
  then have "iadd ts s = Inl TypeError" using assms(3) by (rule iadd_fail_type)
  then show ?thesis using True by (simp add: add_plane_def iadd_ok)
next
  case False
  then have "iadd tc c = Inl TypeError" using assms(2) by (rule iadd_fail_type)
  then show ?thesis by (simp add: add_plane_def)
qed

lemma fits_total_of: "fits (total_of tc cs, total_of ts ss) r = fits (tc, ts) r"
  by (simp add: fits_def length_total_of)

lemma collect_ok:
  assumes "list_all (fits (tc, ts)) rs"
  shows "collect (map Inr rs) (tc, ts) =
           Inr (total_of tc (map fst rs), total_of ts (map snd rs))"
  using assms
proof (induction rs arbitrary: tc ts)
  case Nil
  then show ?case by (simp add: total_of_Nil)
next
  case (Cons r rs)
  obtain c s where r: "r = (c, s)" by (cases r)
  have f: "fits (tc, ts) (c, s)" using Cons.prems by (simp add: r)
  have "list_all (fits (total_of tc [c], total_of ts [s])) rs"
    using Cons.prems by (simp add: list_all_iff fits_total_of)
  from Cons.IH[OF this] show ?case
    by (simp add: r add_plane_ok[OF f] total_of_Cons)
qed

lemma collect_fail:
  assumes "\<not> list_all (fits (tc, ts)) rs"
  shows "\<exists>e. collect (map Inr rs) (tc, ts) = Inl e"
  using assms
proof (induction rs arbitrary: tc ts)
  case Nil
  then show ?case by simp
next
  case (Cons r rs)
  obtain c s where r: "r = (c, s)" by (cases r)
  show ?case
  proof (cases "fits (tc, ts) (c, s)")
    case True
    then have "\<not> list_all (fits (total_of tc [c], total_of ts [s])) rs"
      using Cons.prems by (simp add: r list_all_iff fits_total_of)
    from Cons.IH[OF this] show ?thesis by (simp add: r add_plane_ok[OF True])
  next
    case False
    from add_plane_fail[OF this] obtain e where "add_plane (tc, ts) (c, s) = Inl e" ..
    then show ?thesis by (simp add: r)
  qed
qed

lemma collect_fail_type:
  assumes "\<not> list_all (fits (tc, ts)) rs"
    and "\<forall>r\<in>set rs. array_length (fst r) = length tc \<and> array_length (snd r) = length ts"
  shows "collect (map Inr rs) (tc, ts) = Inl TypeError"
  using assms
proof (induction rs arbitrary: tc ts)
  case Nil
  then show ?case by simp
next
  case (Cons r rs)
  obtain c s where r: "r = (c, s)" by (cases r)
  have shape: "array_length c = length tc" "array_length s = length ts"
    using Cons.prems(2) by (simp_all add: r)
  show ?case
  proof (cases "fits (tc, ts) (c, s)")
    case True
    then have "\<not> list_all (fits (total_of tc [c], total_of ts [s])) rs"
      using Cons.prems(1) by (simp add: r list_all_iff fits_total_of)
    moreover have "\<forall>r\<in>set rs. array_length (fst r) = length (total_of tc [c]) \<and>
        array_length (snd r) = length (total_of ts [s])"
      using Cons.prems(2) by (simp add: length_total_of)
    ultimately have "collect (map Inr rs) (total_of tc [c], total_of ts [s]) = Inl TypeError"
      by (rule Cons.IH)
    then show ?thesis by (simp add: r add_plane_ok[OF True])
  next
    case False
    then have "add_plane (tc, ts) (c, s) = Inl TypeError" using shape
      by (rule add_plane_fail_type)
    then show ?thesis by (simp add: r)
  qed
qed

lemma total_of_mset:
  assumes "mset bs' = mset bs"
  shows "total_of a bs' = total_of a bs"
proof -
  have "sum_list (map f bs') = sum_list (map f bs)" for f :: "ndarray \<Rightarrow> 64 word"
  proof -
    have "sum_list (map f bs') = sum_mset (image_mset f (mset bs'))"
      by (simp add: sum_mset_sum_list[symmetric])
    also have "\<dots> = sum_list (map f bs)"
      using assms by (simp add: sum_mset_sum_list[symmetric])
    finally show ?thesis .
  qed
  then show ?thesis by (simp add: total_of_def)
qed

text \<open>
  Which exception a failing fold raises can depend on the order: a result of the wrong
  shape raises \<open>ValueError\<close>, a result of the wrong type raises \<open>TypeError\<close>, and the fold
  stops at the first one.
\<close>

lemma collect_failure_class_depends_on_order:
  "collect (map Inr [(Int64 [1, 2], Int64 [0]), (Float64 [0], Int64 [0])]) ([0], [0]) =
     Inl ValueError \<and>
   collect (map Inr [(Float64 [0], Int64 [0]), (Int64 [1, 2], Int64 [0])]) ([0], [0]) =
     Inl TypeError"
  by code_simp

text \<open>
  C6. The reduce phase does not depend on the order of the planes: folding the per-plane
  results \<open>(counts, sums)\<close> into the totals in any permutation of their order (reversed,
  for one) gives totals exactly when folding them in the original order does, and then
  the same \<open>total_counts\<close> and \<open>total_sums\<close>. When every vector has the length of its
  total, as the vectors of \<open>do_plane\<close> have for a largest label below 65535, a failing
  fold fails in the same way in either order.
\<close>

theorem collect_order_insensitive:
  assumes "mset results' = mset results"
  shows "(\<forall>t. collect (map Inr results') tot = Inr t \<longleftrightarrow>
              collect (map Inr results) tot = Inr t) \<and>
         ((\<forall>r\<in>set results. array_length (fst r) = length (fst tot) \<and>
                             array_length (snd r) = length (snd tot)) \<longrightarrow>
            collect (map Inr results') tot = collect (map Inr results) tot)"
proof -
  obtain tc ts where tot: "tot = (tc, ts)" by (cases tot)
  have s: "set results' = set results" using assms by (rule mset_eq_setD)
  have all: "list_all (fits (tc, ts)) results' = list_all (fits (tc, ts)) results"
    by (simp add: list_all_iff s)
  show ?thesis
  proof (cases "list_all (fits (tc, ts)) results")
    case True
    have "mset (map fst results') = mset (map fst results)"
         "mset (map snd results') = mset (map snd results)"
      using assms by simp_all
    then have "total_of tc (map fst results') = total_of tc (map fst results)"
              "total_of ts (map snd results') = total_of ts (map snd results)"
      by (simp_all add: total_of_mset)
    then have "collect (map Inr results') tot = collect (map Inr results) tot"
      using True all by (simp add: tot collect_ok)
    then show ?thesis by simp
  next
    case False
    then have F': "\<not> list_all (fits (tc, ts)) results'" using all by simp
    from collect_fail[OF False] obtain e where e: "collect (map Inr results) tot = Inl e"
      unfolding tot ..
    from collect_fail[OF F'] obtain e' where e': "collect (map Inr results') tot = Inl e'"
      unfolding tot ..
    have "collect (map Inr results') tot = collect (map Inr results) tot"
      if "\<forall>r\<in>set results. array_length (fst r) = length (fst tot) \<and>
                             array_length (snd r) = length (snd tot)"
      using that collect_fail_type[OF False] collect_fail_type[OF F'] s
      by (simp add: tot)
    then show ?thesis using e e' by simp
  qed
qed

theorem collect_order_insensitive_witness:
  "mset [(Int64 [0, 1, 1], Int64 [0, 10, 30]), (Int64 [0, 2, 2], Int64 [0, 30, 70])] =
     mset [(Int64 [0, 2, 2], Int64 [0, 30, 70]), (Int64 [0, 1, 1], Int64 [0, 10, 30])] \<and>
   collect (map Inr [(Int64 [0, 2, 2], Int64 [0, 30, 70]), (Int64 [0, 1, 1], Int64 [0, 10, 30])])
       ([0, 0, 0], [0, 0, 0]) = Inr ([0, 3, 3], [0, 40, 100]) \<and>
   collect (map Inr [(Int64 [0, 1, 1], Int64 [0, 10, 30]), (Int64 [0, 2, 2], Int64 [0, 30, 70])])
       ([0, 0, 0], [0, 0, 0]) = Inr ([0, 3, 3], [0, 40, 100]) \<and>
   collect (map Inr [(Int64 [0, 1, 1], Int64 [0, 10, 30]), (Int64 [0, 2, 2], Int64 [0, 30, 70])])
       ([0, 0, 0], [0, 0, 0]) =
     collect (map Inr [(Int64 [0, 2, 2], Int64 [0, 30, 70]), (Int64 [0, 1, 1], Int64 [0, 10, 30])])
       ([0, 0, 0], [0, 0, 0])"
proof -
  let ?A = "[(Int64 [0, 1, 1], Int64 [0, 10, 30]), (Int64 [0, 2, 2], Int64 [0, 30, 70])]"
  let ?B = "[(Int64 [0, 2, 2], Int64 [0, 30, 70]), (Int64 [0, 1, 1], Int64 [0, 10, 30])]"
  let ?T = "([0, 0, 0], [0, 0, 0]) :: totals"
  have h: "mset ?A = mset ?B" by (simp add: add.commute)
  have b: "collect (map Inr ?B) ?T = Inr ([0, 3, 3], [0, 40, 100])" by code_simp
  have shapes: "\<forall>r\<in>set ?B. array_length (fst r) = length (fst ?T) \<and>
      array_length (snd r) = length (snd ?T)"
    by (simp add: array_length_def)
  note c = collect_order_insensitive[OF h, of ?T]
  have c1: "collect (map Inr ?A) ?T = Inr ([0, 3, 3], [0, 40, 100])"
    using conjunct1[OF c] b by blast
  have c2: "collect (map Inr ?A) ?T = collect (map Inr ?B) ?T"
    using conjunct2[OF c] shapes by blast
  show ?thesis by (rule conjI[OF h conjI[OF b conjI[OF c1 c2]]])
qed

section \<open>Where the program departs from its specification\<close>

text \<open>
  For a largest label below 65535 and at least one worker, the driver fails with
  \<open>TypeError\<close> as soon as the first plane has a pixel that is warped into the volume.
\<close>

lemma select_same: "select (map P cs) cs = filter P cs"
  by (induction cs) (auto simp: select_def)

lemma aggregate_raises_in_general:
  fixes segmentation :: "label array3"
  assumes wf: "wf_array3 segmentation"
    and mx: "np_max (elems3 segmentation) = Some mx" and nowrap: "mx < 65535"
    and n: "1 \<le> n"
    and y: "y < rows f" and x: "x < cols f"
    and hit: "in_bounds segmentation (warper 0 (rows f) (cols f) (0, int y, int x))"
  shows "snd (aggregate n segmentation warper (f # rest)) = Inl TypeError"
proof -
  let ?aw = "warper 0 (rows f) (cols f)"
  let ?cs = "map ?aw (mgrid 0 (rows f) (cols f))"
  let ?msk = "map (in_bounds segmentation) ?cs"
  let ?seg = "map (\<lambda>c. unat (lookup3 segmentation c)) (select ?msk ?cs)"
  let ?send = "unat mx + 1"
  let ?w = "astype_int64 (select ?msk (pixels f))"
  have "(0, int y, int x) \<in> set (mgrid 0 (rows f) (cols f))"
    using y x by (force simp: mgrid_def)
  then have "?aw (0, int y, int x) \<in> set (filter (in_bounds segmentation) ?cs)"
    using hit by auto
  then have "filter (in_bounds segmentation) ?cs \<noteq> []"
    by (metis empty_iff list.set(1))
  then have ne: "?seg \<noteq> []" unfolding select_same by simp
  have dp: "do_plane f 0 segmentation warper =
      Inr (bincount ?seg ?send, bincount_weights ?seg ?w ?send)"
    unfolding do_plane_def Let_def mx by (simp add: send_no_wrap[OF nowrap])
  have bound: "\<forall>i\<in>set ?seg. i < ?send"
  proof
    fix i assume "i \<in> set ?seg"
    then obtain c where c: "in_bounds segmentation c" "i = unat (lookup3 segmentation c)"
      unfolding select_same by auto
    have "lookup3 segmentation c \<in> set (elems3 segmentation)"
      using wf c(1) by (rule lookup3_in_set)
    then have "lookup3 segmentation c \<le> mx" using np_max_Some[OF mx] by blast
    then show "i < ?send" using c(2) by (simp add: word_le_nat_alt)
  qed
  have "0 < ?send" by simp
  from bincount_nth[OF bound this] obtain ws where ws: "bincount ?seg ?send = Int64 ws"
    and len: "length ws = ?send" by blast
  obtain xs where xs: "bincount_weights ?seg ?w ?send = Float64 xs"
    using ne by (simp add: bincount_weights_def)
  let ?zero = "replicate ?send (0 :: 64 word)"
  have add: "add_plane (?zero, ?zero) (Int64 ws, Float64 xs) = Inl TypeError"
    using len by (simp add: add_plane_def iadd_def)
  have dp': "do_plane f (int 0) segmentation warper = Inr (Int64 ws, Float64 xs)"
    using dp ws xs by simp
  have en: "enumerate 0 (f # rest) = (0, f) # enumerate 1 rest" by simp
  show ?thesis
  proof (cases "n = 1")
    case True
    have "sequential segmentation warper ((0, f) # enumerate 1 rest) (?zero, ?zero) =
        ([Called 0], Inl TypeError)"
      using dp' add by simp
    then show ?thesis using True
      by (simp add: aggregate_def mx Let_def send_no_wrap[OF nowrap])
  next
    case False
    have "collect (map (\<lambda>(z, filename). do_plane filename (int z) segmentation warper)
        ((0, f) # enumerate 1 rest)) (?zero, ?zero) = Inl TypeError"
      using dp' add by simp
    then show ?thesis using False n
      by (simp add: aggregate_def mx Let_def send_no_wrap[OF nowrap] pooled_def)
  qed
qed

text \<open>
  C2. The totals are not the sums over the planes: the first plane with a pixel inside
  the volume returns its sums as \<^verbatim>\<open>np.float64\<close>, and adding them to \<open>total_sums\<close> raises
  \<open>TypeError\<close>, with one worker as with a pool.
\<close>

theorem aggregate_raises_on_float_sums:
  "aggregate 1 scenario_segmentation identity_warper [scenario_plane, scenario_plane] =
     ([Called 0], Inl TypeError) \<and>
   aggregate 2 scenario_segmentation identity_warper [scenario_plane, scenario_plane] =
     ([Submitted 0, Submitted 1], Inl TypeError)"
  by code_simp

text \<open>
  C3. The intensity sums of a plane are accumulated in \<^verbatim>\<open>np.float64\<close>, not in integers:
  \<open>do_plane\<close> returns them as such, the total of \<^verbatim>\<open>np.int64\<close> does not take them, the
  sum of \<open>2^53\<close> and 1 is \<open>2^53\<close>; the cast of the intensity \<open>2^63\<close> to \<^verbatim>\<open>np.int64\<close> is
  \<open>- 2^63\<close>, and so is the \<^verbatim>\<open>np.int64\<close> sum of \<open>2^63 - 1\<close> and 1.
\<close>

theorem intensity_sums_are_float64:
  "do_plane scenario_plane 0 scenario_segmentation identity_warper =
     Inr (Int64 [0, 2, 2], Float64 [0, 30, 70]) \<and>
   iadd [0, 0, 0] (Float64 [0, 30, 70]) = Inl TypeError \<and>
   bincount_weights [0, 0] (astype_int64 [9007199254740992, 1]) 1 =
     Float64 [9007199254740992] \<and>
   map sint (astype_int64 [9223372036854775808]) = [- 9223372036854775808] \<and>
   map_sum id (map sint) (iadd [9223372036854775807] (Int64 [1])) =
     Inr [- 9223372036854775808]"
  by code_simp

section \<open>The report\<close>

lemma zip_per_id:
  "zip ids (zip (map f ids) (map g ids)) = map (\<lambda>i. (i, f i, g i)) ids"
  by (induction ids) auto

lemma rollup_closed:
  "rollup br lvl xs d =
     (if distinct (map (\<lambda>x. get_level_name br (fst x) lvl) xs) \<and>
         (\<forall>x\<in>set xs. get_level_name br (fst x) lvl \<notin> set (map fst d))
      then Inr (d @ map (\<lambda>(i, c, s). (get_level_name br i lvl, c, s)) xs)
      else Inl TypeError)"
proof (induction xs arbitrary: d)
  case Nil
  then show ?case by simp
next
  case (Cons x xs)
  obtain i c s where x: "x = (i, c, s)" by (cases x)
  show ?case
  proof (cases "get_level_name br i lvl \<in> set (map fst d)")
    case True
    then show ?thesis by (simp add: x)
  next
    case False
    have step: "rollup br lvl (x # xs) d =
        rollup br lvl xs (d @ [(get_level_name br i lvl, c, s)])"
      using False by (simp add: x Let_def)
    show ?thesis unfolding step Cons.IH using False by (force simp: x)
  qed
qed

lemma report_table_closed:
  "report_table br lvl (tc, ts) =
     (if list_ex (\<lambda>i. length ts \<le> i) (filter (\<lambda>i. 0 < tc ! i) [0..<length tc])
      then Inl IndexError
      else if lvl = 7
      then Inr (Finest (map (\<lambda>i. (i, region_of br i, tc ! i, ts ! i))
                  (filter (\<lambda>i. 0 < tc ! i) [0..<length tc])))
      else if distinct (map (\<lambda>i. get_level_name br i lvl)
                  (filter (\<lambda>i. 0 < tc ! i) [0..<length tc]))
      then Inr (Coarser (sort_key fst (map (\<lambda>i. (get_level_name br i lvl, tc ! i, ts ! i))
                  (filter (\<lambda>i. 0 < tc ! i) [0..<length tc]))))
      else Inl TypeError)"
  by (simp add: report_table_def Let_def zip_per_id rollup_closed finest_rows_def
        comp_def case_prod_unfold)


text \<open>
  C5. Whenever lines 116 to 144 produce the rows of a report, the rows come from the ids
  whose total count is positive. At level 7 the ids of the rows are exactly the ids with
  a positive total count, each row carrying that count; at a coarser level every row
  carries a positive count and the name of an id with a positive total count. An id
  with a total count of 0 contributes no row at any level, and the count that divides
  the sum in the mean is positive in every row.
\<close>

theorem zero_count_ids_dropped:
  assumes "report_table br lvl (total_counts, total_sums) = Inr t"
  shows "case t of
           Finest rs \<Rightarrow>
             map fst rs = filter (\<lambda>i. 0 < total_counts ! i) [0..<length total_counts] \<and>
             (\<forall>(i, region, c, s) \<in> set rs. c = total_counts ! i \<and> 0 < c)
         | Coarser rs \<Rightarrow>
             (\<forall>(name, c, s) \<in> set rs.
                0 < c \<and>
                (\<exists>i < length total_counts.
                   0 < total_counts ! i \<and> c = total_counts ! i \<and>
                   name = get_level_name br i lvl))"
proof (cases "lvl = 7")
  case True
  with assms have "t = Finest (map (\<lambda>i. (i, region_of br i, total_counts ! i, total_sums ! i))
      (filter (\<lambda>i. 0 < total_counts ! i) [0..<length total_counts]))"
    by (simp add: report_table_closed split: if_splits)
  then show ?thesis by (auto simp: comp_def)
next
  case False
  with assms have "t = Coarser (sort_key fst
      (map (\<lambda>i. (get_level_name br i lvl, total_counts ! i, total_sums ! i))
         (filter (\<lambda>i. 0 < total_counts ! i) [0..<length total_counts])))"
    by (simp add: report_table_closed split: if_splits)
  then show ?thesis by auto
qed

theorem zero_count_ids_dropped_witness:
  "report_table scenario_regions 7 ([0, 2, 2, 0], [0, 30, 70, 0]) =
     Inr (Finest [(1, ''RegionOne'', 2, 30), (2, ''id2'', 2, 70)]) \<and>
   (case Finest [(1, ''RegionOne'', 2, 30), (2, ''id2'', 2, 70)] of
      Finest rs \<Rightarrow>
        map fst rs = filter (\<lambda>i. 0 < [0, 2, 2, 0 :: int] ! i) [0..<length [0, 2, 2, 0 :: int]] \<and>
        (\<forall>(i, region, c, s) \<in> set rs. c = [0, 2, 2, 0] ! i \<and> 0 < c)
    | Coarser rs \<Rightarrow>
        (\<forall>(name, c, s) \<in> set rs.
           0 < c \<and>
           (\<exists>i < length [0, 2, 2, 0 :: int].
              0 < [0, 2, 2, 0 :: int] ! i \<and> c = [0, 2, 2, 0] ! i \<and>
              name = get_level_name scenario_regions i 7)))"
proof -
  have h: "report_table scenario_regions 7 ([0, 2, 2, 0], [0, 30, 70, 0]) =
     Inr (Finest [(1, ''RegionOne'', 2, 30), (2, ''id2'', 2, 70)])"
    by code_simp
  show ?thesis
    using h zero_count_ids_dropped[OF h]
    by (intro conjI) assumption+
qed

text \<open>
  C10. When label 0 has a positive count, the level-7 report names it "not in any
  region" whatever the table of regions holds. At any other level the report does not
  depend on \<open>name_per_id\<close>, and its rows are those of all ids with a positive count,
  each under the name that \<open>get_level_name\<close> gives for it; the row of label 0 is there
  under \<open>get_level_name br 0 lvl\<close>, as for any other id.
\<close>

theorem label_zero_special_only_at_level_7:
  assumes "0 < length total_counts" and "0 < total_counts ! 0"
    and "length total_counts \<le> length total_sums"
  shows "(\<exists>rest. report_table br 7 (total_counts, total_sums) =
            Inr (Finest ((0, ''not in any region'', total_counts ! 0, total_sums ! 0) # rest))) \<and>
         (lvl \<noteq> 7 \<longrightarrow>
            report_table (br\<lparr>name_per_id := names\<rparr>) lvl (total_counts, total_sums) =
            report_table br lvl (total_counts, total_sums)) \<and>
         (lvl \<noteq> 7 \<longrightarrow> report_table br lvl (total_counts, total_sums) = Inr t \<longrightarrow>
            (\<exists>rs. t = Coarser rs \<and>
               set rs = (\<lambda>i. (get_level_name br i lvl, total_counts ! i, total_sums ! i)) `
                          {i. i < length total_counts \<and> 0 < total_counts ! i} \<and>
               (get_level_name br 0 lvl, total_counts ! 0, total_sums ! 0) \<in> set rs))"
proof (intro conjI impI)
  let ?surv = "filter (\<lambda>i. 0 < total_counts ! i) [0..<length total_counts]"
  have no_err: "\<not> list_ex (\<lambda>i. length total_sums \<le> i) ?surv"
    using assms(3) by (auto simp: list_ex_iff)
  have "[0..<length total_counts] = 0 # [1..<length total_counts]"
    using assms(1) by (simp add: upt_conv_Cons)
  then have surv: "?surv = 0 # filter (\<lambda>i. 0 < total_counts ! i) [1..<length total_counts]"
    using assms(2) by simp
  show "\<exists>rest. report_table br 7 (total_counts, total_sums) =
      Inr (Finest ((0, ''not in any region'', total_counts ! 0, total_sums ! 0) # rest))"
    unfolding report_table_closed using no_err
    by (simp add: surv region_of_def)
  show "report_table (br\<lparr>name_per_id := names\<rparr>) lvl (total_counts, total_sums) =
      report_table br lvl (total_counts, total_sums)" if "lvl \<noteq> 7"
    unfolding report_table_closed using that by simp
  show "\<exists>rs. t = Coarser rs \<and>
      set rs = (\<lambda>i. (get_level_name br i lvl, total_counts ! i, total_sums ! i)) `
                 {i. i < length total_counts \<and> 0 < total_counts ! i} \<and>
      (get_level_name br 0 lvl, total_counts ! 0, total_sums ! 0) \<in> set rs"
    if "lvl \<noteq> 7" and "report_table br lvl (total_counts, total_sums) = Inr t"
  proof -
    let ?rs = "sort_key fst
        (map (\<lambda>i. (get_level_name br i lvl, total_counts ! i, total_sums ! i)) ?surv)"
    have t: "t = Coarser ?rs"
      using that no_err by (simp add: report_table_closed split: if_splits)
    have s: "set ?rs = (\<lambda>i. (get_level_name br i lvl, total_counts ! i, total_sums ! i)) `
        {i. i < length total_counts \<and> 0 < total_counts ! i}"
      by auto
    have "0 \<in> {i. i < length total_counts \<and> 0 < total_counts ! i}"
      using assms(1,2) by simp
    then have "(get_level_name br 0 lvl, total_counts ! 0, total_sums ! 0) \<in> set ?rs"
      unfolding s by (rule imageI)
    with t s show ?thesis by blast
  qed
qed

theorem label_zero_special_only_at_level_7_witness:
  "0 < length [1, 2, 2 :: int] \<and> 0 < [1, 2, 2 :: int] ! 0 \<and>
   length [1, 2, 2 :: int] \<le> length [5, 30, 70 :: int] \<and>
   (1 :: int) \<noteq> 7 \<and>
   report_table scenario_regions 1 ([1, 2, 2], [5, 30, 70]) =
     Inr (Coarser [(''CortexA'', 2, 70), (''CortexB'', 2, 30), (''Other'', 1, 5)]) \<and>
   (\<exists>rest. report_table scenario_regions 7 ([1, 2, 2], [5, 30, 70]) =
      Inr (Finest ((0, ''not in any region'', [1, 2, 2] ! 0, [5, 30, 70] ! 0) # rest))) \<and>
   report_table (scenario_regions\<lparr>name_per_id := Map.empty\<rparr>) 1 ([1, 2, 2], [5, 30, 70]) =
     report_table scenario_regions 1 ([1, 2, 2], [5, 30, 70]) \<and>
   (\<exists>rs. Coarser [(''CortexA'', 2, 70), (''CortexB'', 2, 30), (''Other'', 1, 5)] = Coarser rs \<and>
      set rs = (\<lambda>i. (get_level_name scenario_regions i 1, [1, 2, 2] ! i, [5, 30, 70] ! i)) `
                 {i. i < length [1, 2, 2 :: int] \<and> 0 < [1, 2, 2 :: int] ! i} \<and>
      (get_level_name scenario_regions 0 1, [1, 2, 2] ! 0, [5, 30, 70] ! 0) \<in> set rs)"
proof -
  have h1: "0 < length [1, 2, 2 :: int]" by simp
  have h2: "0 < [1, 2, 2 :: int] ! 0" by simp
  have h3: "length [1, 2, 2 :: int] \<le> length [5, 30, 70 :: int]" by simp
  have h4: "(1 :: int) \<noteq> 7" by simp
  have h5: "report_table scenario_regions 1 ([1, 2, 2], [5, 30, 70]) =
     Inr (Coarser [(''CortexA'', 2, 70), (''CortexB'', 2, 30), (''Other'', 1, 5)])"
    by code_simp
  note c = label_zero_special_only_at_level_7[OF h1 h2 h3, of scenario_regions 1 Map.empty
      "Coarser [(''CortexA'', 2, 70), (''CortexB'', 2, 30), (''Other'', 1, 5)]"]
  note c1 = conjunct1[OF c]
  note c2 = mp[OF conjunct1[OF conjunct2[OF c]] h4]
  note c3 = mp[OF mp[OF conjunct2[OF conjunct2[OF c]] h4] h5]
  show ?thesis
    by (rule conjI[OF h1 conjI[OF h2 conjI[OF h3 conjI[OF h4 conjI[OF h5
          conjI[OF c1 conjI[OF c2 c3]]]]]]])
qed

text \<open>
  C7. At a coarser level the header that the program writes has a space after the comma
  that follows "area"; it is one character longer than the header of the specification.
  The run is one in which every pixel is warped out of the volume, so that the totals
  stay zero and the report is written.
\<close>

theorem coarser_header_has_a_space:
  "main coarser_args away_warper scenario_reference [scenario_plane] scenario_regions
     fmt_whole_mean = ([Called 0], Inr [header_coarser]) \<and>
   header_coarser \<noteq> header_coarser_spec \<and>
   length header_coarser = length header_coarser_spec + 1"
  by code_simp

section \<open>An invalid worker count\<close>

text \<open>
  C8. For every worker count less than or equal to 0 the run fails and its trace is
  empty: no plane has been processed by a call of \<open>do_plane\<close>, no task has been
  submitted, and so no contribution has been added to the totals.
\<close>

theorem invalid_worker_count_rejected:
  assumes "n_cores a \<le> 0"
  shows "\<exists>e. main a warper reference_segmentation files br fmt_mean = ([], Inl e)"
proof -
  let ?seg = "astype_uint16 reference_segmentation"
  have "\<exists>e. aggregate (n_cores a) ?seg warper files = ([], Inl e)"
    using assms
    by (cases "np_max (elems3 ?seg)") (simp_all add: aggregate_def pooled_def Let_def)
  then obtain e where "aggregate (n_cores a) ?seg warper files = ([], Inl e)" ..
  then show ?thesis by (simp add: main_def Let_def)
qed

theorem invalid_worker_count_rejected_witness:
  "n_cores rejected_args \<le> 0 \<and>
   (\<exists>e. main rejected_args identity_warper scenario_reference [scenario_plane]
           scenario_regions fmt_whole_mean = ([], Inl e))"
proof -
  have h: "n_cores rejected_args \<le> 0" by (simp add: rejected_args_def)
  show ?thesis
    using h invalid_worker_count_rejected[OF h, of identity_warper scenario_reference
        "[scenario_plane]" scenario_regions fmt_whole_mean]
    by (intro conjI) assumption+
qed

section \<open>The cast of the labels\<close>

lemma astype_uint16_mod:
  "astype_uint16 (a\<lparr>elems3 := map (\<lambda>v. v mod 65536) (elems3 a)\<rparr>) = astype_uint16 a"
proof -
  have "(word_of_int (v mod 65536) :: 16 word) = word_of_int v" for v
    by (simp add: word_of_int_eq_iff take_bit_eq_mod)
  then show ?thesis by (simp add: astype_uint16_def comp_def)
qed

text \<open>
  C9. Every value of the reference segmentation is cast to a 16-bit unsigned integer
  before it is placed in the shared volume: the label is the value modulo 65536, two
  values that differ by a multiple of 65536 are the same label, and the whole run is
  the run on the segmentation reduced modulo 65536.
\<close>

theorem labels_reduced_modulo_65536:
  "elems3 (astype_uint16 a) = map word_of_int (elems3 a) \<and>
   (\<forall>v. unat (word_of_int v :: 16 word) = nat (v mod 65536)) \<and>
   (\<forall>v k. (word_of_int (v + 65536 * k) :: 16 word) = word_of_int v) \<and>
   main ar warper (a\<lparr>elems3 := map (\<lambda>v. v mod 65536) (elems3 a)\<rparr>) files br fmt_mean =
     main ar warper a files br fmt_mean"
proof (intro conjI allI)
  show "elems3 (astype_uint16 a) = map word_of_int (elems3 a)"
    by (simp add: astype_uint16_def)
  show "unat (word_of_int v :: 16 word) = nat (v mod 65536)" for v
    by (simp add: unsigned_of_int take_bit_eq_mod)
  show "(word_of_int (v + 65536 * k) :: 16 word) = word_of_int v" for v k
  proof -
    have "(v + 65536 * k) mod 2 ^ LENGTH(16) = v mod 2 ^ LENGTH(16)" by simp
    then show ?thesis by (simp only: word_of_int_eq_iff take_bit_eq_mod)
  qed
  show "main ar warper (a\<lparr>elems3 := map (\<lambda>v. v mod 65536) (elems3 a)\<rparr>) files br fmt_mean =
     main ar warper a files br fmt_mean"
    by (simp add: main_def astype_uint16_mod)
qed

end
